theory Spec2Isabelle
  imports Complex_Main
begin

section \<open>Data model\<close>

text \<open>
  A Python \<open>str\<close> is a sequence of Unicode code points, so it is modelled as a list of
  natural numbers (the Khmer output lies outside any 8-bit character type). Token indices
  are Python integers. Probabilities and confidences are modelled as real numbers: the
  rounding error of binary floating point and the value NaN are outside the model.
\<close>

type_synonym ustr = "nat list"

datatype error = ValueError | IndexError | OverflowError | FileNotFoundError | RuntimeError

section \<open>Library behaviour outside the repository\<close>

text \<open>
  \<open>str.lower\<close> and the Unicode whitespace test (\<open>str.isspace\<close> on one character, which is
  also what \<open>str.strip\<close>, \<open>str.split\<close> and the regular expression class \<open>\s\<close> use) depend
  on the Unicode character database, which is not part of the repository; they are
  parameters of the model.

  So is the treatment of a Python integer outside the range of \<open>np.int32\<close> that is
  assigned into an array of that type: NumPy raises \<open>OverflowError\<close> for every such
  integer from version 2 on; before, it raises for those that do not fit the C type
  \<open>long\<close> of the platform and stores the others reduced modulo \<open>2 ^ 32\<close>. The repository
  pins no version, so \<open>int32_refuses\<close> says which integers outside the range are refused.
\<close>

record py_env =
  str_lower :: "ustr \<Rightarrow> ustr"
  str_isspace :: "nat \<Rightarrow> bool"
  int32_refuses :: "int \<Rightarrow> bool"

section \<open>Sequence padding (\<open>ModelLoader._pad_sequences\<close>)\<close>

text \<open>
  The source's \<open>padding\<close> argument is compared with \<open>'post'\<close> only; every other value
  takes the \<open>else\<close> branches, which is \<open>Pre\<close> here.
\<close>

datatype padding = Post | Pre

text \<open>
  The array is allocated by \<open>np.zeros((len(sequences), maxlen), dtype=np.int32)\<close>, so
  every element that is assigned is first converted to a signed 32-bit integer. An
  integer of the range is stored as it is; one outside is refused with \<open>OverflowError\<close>
  or stored as the representative of its residue modulo \<open>2 ^ 32\<close> in the range.
\<close>

definition in_int32 :: "int \<Rightarrow> bool" where
  "in_int32 x = (- 2147483648 \<le> x \<and> x \<le> 2147483647)"

definition wrap_int32 :: "int \<Rightarrow> int" where
  "wrap_int32 x = (x + 2147483648) mod 4294967296 - 2147483648"

definition to_int32 :: "py_env \<Rightarrow> int \<Rightarrow> error + int" where
  "to_int32 U x =
     (if in_int32 x then Inr x
      else if int32_refuses U x then Inl OverflowError
      else Inr (wrap_int32 x))"

text \<open>The elements of an assigned list are converted in order; the first refusal raises.\<close>

fun to_int32_list :: "py_env \<Rightarrow> int list \<Rightarrow> error + int list" where
  "to_int32_list U [] = Inr []"
| "to_int32_list U (x # xs) =
     (case to_int32 U x of
        Inl e \<Rightarrow> Inl e
      | Inr y \<Rightarrow>
          (case to_int32_list U xs of
             Inl e \<Rightarrow> Inl e
           | Inr ys \<Rightarrow> Inr (y # ys)))"

text \<open>
  Assigning a list to a one-dimensional region of a numpy array broadcasts the converted
  list to the width of the region: the lengths agree, or the list has exactly one element,
  which is then repeated; anything else raises \<open>ValueError\<close>.
\<close>

definition np_broadcast :: "nat \<Rightarrow> int list \<Rightarrow> error + int list" where
  "np_broadcast w v =
     (if length v = w then Inr v
      else if length v = 1 then Inr (replicate w (hd v))
      else Inl ValueError)"

text \<open>
  \<open>row[lo:hi] = v\<close> for resolved bounds \<open>lo \<le> hi \<le> len(row)\<close> on a row of an
  \<open>np.int32\<close> array: the list is converted to the element type, then broadcast.
\<close>

definition np_assign ::
  "py_env \<Rightarrow> int list \<Rightarrow> nat \<Rightarrow> nat \<Rightarrow> int list \<Rightarrow> error + int list" where
  "np_assign U row lo hi v =
     (case to_int32_list U v of
        Inl e \<Rightarrow> Inl e
      | Inr c \<Rightarrow>
          (case np_broadcast (hi - lo) c of
             Inl e \<Rightarrow> Inl e
           | Inr b \<Rightarrow> Inr (take lo row @ b @ drop hi row)))"

text \<open>
  Python resolves the slice \<open>[-k:]\<close> of a sequence of length \<open>n\<close> to the start index
  \<open>n - k\<close> clipped at 0 when \<open>k > 0\<close>; but \<open>-0\<close> is \<open>0\<close>, so \<open>[-0:]\<close> is the whole
  sequence.
\<close>

definition neg_slice_start :: "nat \<Rightarrow> nat \<Rightarrow> nat" where
  "neg_slice_start n k = (if k = 0 then 0 else n - k)"

text \<open>
  One iteration of the loop over \<open>enumerate(sequences)\<close>: the row \<open>padded[i]\<close> starts
  as \<open>maxlen\<close> zeros of type \<open>np.int32\<close> and receives one assignment.
\<close>

definition pad_row :: "py_env \<Rightarrow> nat \<Rightarrow> padding \<Rightarrow> int list \<Rightarrow> error + int list" where
  "pad_row U maxlen pad seq =
     (let row = replicate maxlen 0 in
      if length seq > maxlen then
        (case pad of
           Post \<Rightarrow> np_assign U row 0 maxlen (take maxlen seq)
         | Pre \<Rightarrow> np_assign U row 0 maxlen (drop (neg_slice_start (length seq) maxlen) seq))
      else
        (case pad of
           Post \<Rightarrow> np_assign U row 0 (min (length seq) maxlen) seq
         | Pre \<Rightarrow> np_assign U row (neg_slice_start maxlen (length seq)) maxlen seq))"

fun pad_sequences ::
  "py_env \<Rightarrow> int list list \<Rightarrow> nat \<Rightarrow> padding \<Rightarrow> error + int list list" where
  "pad_sequences U [] maxlen pad = Inr []"
| "pad_sequences U (seq # rest) maxlen pad =
     (case pad_row U maxlen pad seq of
        Inl e \<Rightarrow> Inl e
      | Inr r \<Rightarrow>
          (case pad_sequences U rest maxlen pad of
             Inl e \<Rightarrow> Inl e
           | Inr rs \<Rightarrow> Inr (r # rs)))"

section \<open>String operations of the engine\<close>

definition str_strip :: "py_env \<Rightarrow> ustr \<Rightarrow> ustr" where
  "str_strip U text =
     rev (dropWhile (str_isspace U) (rev (dropWhile (str_isspace U) text)))"

text \<open>\<open>text.split()\<close>: the maximal runs of non-whitespace characters, in order.\<close>

fun str_split_from :: "py_env \<Rightarrow> ustr \<Rightarrow> ustr \<Rightarrow> ustr list" where
  "str_split_from U cur [] = (if cur = [] then [] else [cur])"
| "str_split_from U cur (c # cs) =
     (if str_isspace U c then
        (if cur = [] then str_split_from U [] cs else cur # str_split_from U [] cs)
      else str_split_from U (cur @ [c]) cs)"

definition str_split :: "py_env \<Rightarrow> ustr \<Rightarrow> ustr list" where
  "str_split U text = str_split_from U [] text"

text \<open>\<open>not result or result.isspace()\<close>: empty, or every character is whitespace.\<close>

definition empty_or_isspace :: "py_env \<Rightarrow> ustr \<Rightarrow> bool" where
  "empty_or_isspace U result = (result = [] \<or> list_all (str_isspace U) result)"

text \<open>The f-string \<open>f"[{eng_input}]"\<close>: code points 91 and 93 around the input.\<close>

definition bracket :: "ustr \<Rightarrow> ustr" where
  "bracket eng_input = 91 # eng_input @ [93]"

text \<open>
  \<open>round(x, 2)\<close> rounds to two decimals with ties going to the even neighbour, both for
  Python floats and for numpy scalars.
\<close>

definition rint :: "real \<Rightarrow> int" where
  "rint x =
     (let f = \<lfloor>x\<rfloor>; d = x - of_int f in
      if d < 1/2 then f
      else if 1/2 < d then f + 1
      else if even f then f else f + 1)"

definition round2 :: "real \<Rightarrow> real" where
  "round2 x = of_int (rint (x * 100)) / 100"

definition mean :: "real list \<Rightarrow> real" where
  "mean xs = sum_list xs / real (length xs)"

section \<open>Text normalizer (\<open>ModelLoader.clean_text\<close> with \<open>is_khmer=False\<close>)\<close>

definition clean_text :: "py_env \<Rightarrow> ustr \<Rightarrow> ustr" where
  "clean_text U text =
     filter (\<lambda>c. (97 \<le> c \<and> c \<le> 122) \<or> str_isspace U c)
       (str_strip U (str_lower U text))"

section \<open>Loaded assets\<close>

text \<open>
  The Keras tokenizers and the Keras model come from the pickle and model files. Of a
  tokenizer the engine uses the two dictionaries and \<open>texts_to_sequences\<close>, a library
  method that is a parameter here. The model's \<open>predict\<close> is a parameter too: given the
  two padded inputs it raises or returns an array of rank 3 (batch, time, vocabulary).
  An output of another rank makes \<open>preds.shape[1]\<close>, the indexing or the conversion to
  \<open>float\<close> raise inside the same \<open>try\<close> block and is covered by the raising outcome.
\<close>

record tokenizer =
  word_index :: "ustr \<rightharpoonup> int"
  index_word :: "int \<rightharpoonup> ustr"
  texts_to_sequences :: "ustr list \<Rightarrow> error + int list list"

record ndarray3 =
  dim0 :: nat
  dim1 :: nat
  dim2 :: nat
  cell :: "nat \<Rightarrow> nat \<Rightarrow> nat \<Rightarrow> real"

text \<open>
  The two maximal lengths are the widths of the padded tensors and are natural numbers
  here; likewise the \<open>maxlen\<close> argument of the padding utility.
\<close>

record assets =
  model_predict :: "int list list \<Rightarrow> int list list \<Rightarrow> error + ndarray3"
  eng_tokenizer :: tokenizer
  khm_tokenizer :: tokenizer
  max_eng_len :: nat
  max_khm_len :: nat

text \<open>
  The singleton's state: \<open>loaded = None\<close> while \<open>_initialized\<close> is false (no attribute
  is read in that state), the assets afterwards. \<open>forward_passes\<close> is a ghost counter of
  the calls of \<open>self.model.predict\<close>; the source has no such field, it serves to state that
  a path makes no forward pass.
\<close>

record loader =
  loaded :: "assets option"
  forward_passes :: nat

text \<open>
  \<open>initialize\<close> returns at once when already initialized; otherwise it reads the model
  and pickle files. What reading them yields (an exception or the assets) is the
  parameter \<open>disk\<close>. \<open>_initialized\<close> is set only after everything has been loaded.
\<close>

definition initialize :: "error + assets \<Rightarrow> loader \<Rightarrow> error + loader \<times> assets" where
  "initialize disk L =
     (case loaded L of
        Some A \<Rightarrow> Inr (L, A)
      | None \<Rightarrow>
          (case disk of
             Inl e \<Rightarrow> Inl e
           | Inr A \<Rightarrow> Inr (L\<lparr>loaded := Some A\<rparr>, A)))"

section \<open>Greedy decoder (\<open>ModelLoader.predict_khmer_with_confidence\<close>)\<close>

text \<open>Character-level fallback encoding of the cleaned word.\<close>

definition encode_chars :: "tokenizer \<Rightarrow> ustr \<Rightarrow> int list" where
  "encode_chars tok cleaned =
     map (\<lambda>c. case word_index tok [c] of
                 Some i \<Rightarrow> i
               | None \<Rightarrow> if c = 32 then 1 else 0) cleaned"

text \<open>
  \<open>preds[0, time_index]\<close>: each index must lie within its dimension (a negative index
  counts from the end), otherwise \<open>IndexError\<close>.
\<close>

definition np_index :: "nat \<Rightarrow> int \<Rightarrow> error + nat" where
  "np_index d i =
     (if 0 \<le> i \<and> i < int d then Inr (nat i)
      else if i < 0 \<and> - int d \<le> i then Inr (nat (i + int d))
      else Inl IndexError)"

definition preds_row :: "ndarray3 \<Rightarrow> int \<Rightarrow> int \<Rightarrow> error + real list" where
  "preds_row preds i j =
     (case np_index (dim0 preds) i of
        Inl e \<Rightarrow> Inl e
      | Inr b \<Rightarrow>
          (case np_index (dim1 preds) j of
             Inl e \<Rightarrow> Inl e
           | Inr t \<Rightarrow> Inr (map (cell preds b t) [0..<dim2 preds])))"

text \<open>\<open>np.argmax\<close>: the first index of the maximum; \<open>ValueError\<close> on an empty array.\<close>

fun argmax_from :: "real list \<Rightarrow> nat \<Rightarrow> nat \<Rightarrow> real \<Rightarrow> nat" where
  "argmax_from [] i best bv = best"
| "argmax_from (x # xs) i best bv =
     (if bv < x then argmax_from xs (Suc i) i x else argmax_from xs (Suc i) best bv)"

definition argmax :: "real list \<Rightarrow> error + nat" where
  "argmax probs =
     (case probs of
        [] \<Rightarrow> Inl ValueError
      | x # xs \<Rightarrow> Inr (argmax_from xs 1 0 x))"

text \<open>
  The loop \<open>for t in range(self.max_khm_len + 10)\<close>, with the loop variables
  \<open>decoder_seq\<close> and \<open>confidences\<close> and the ghost counter \<open>n\<close> of forward passes. The
  result is the exception that left the loop, or the two lists at its exit.
\<close>

function greedy_loop ::
  "py_env \<Rightarrow> assets \<Rightarrow> int list list \<Rightarrow> int \<Rightarrow> nat \<Rightarrow> int list \<Rightarrow> real list \<Rightarrow> nat \<Rightarrow>
     (error + int list \<times> real list) \<times> nat" where
  "greedy_loop U A enc_padded end_idx t decoder_seq confidences n =
     (if t < max_khm_len A + 10 then
        (case pad_sequences U [decoder_seq] (max_khm_len A + 1) Post of
           Inl e \<Rightarrow> (Inl e, n)
         | Inr dec_padded \<Rightarrow>
             (case model_predict A enc_padded dec_padded of
                Inl e \<Rightarrow> (Inl e, Suc n)
              | Inr preds \<Rightarrow>
                  (let time_index = int (length decoder_seq) - 1 in
                   if time_index \<ge> int (dim1 preds) then
                     (Inr (decoder_seq, confidences), Suc n)
                   else
                     (case preds_row preds 0 time_index of
                        Inl e \<Rightarrow> (Inl e, Suc n)
                      | Inr probs \<Rightarrow>
                          (case argmax probs of
                             Inl e \<Rightarrow> (Inl e, Suc n)
                           | Inr next_token \<Rightarrow>
                               (let confidence = probs ! next_token in
                                if int next_token = end_idx \<or> t = max_khm_len A + 9 then
                                  (Inr (decoder_seq @ [int next_token],
                                        confidences @ [confidence]), Suc n)
                                else
                                  greedy_loop U A enc_padded end_idx (Suc t)
                                    (decoder_seq @ [int next_token])
                                    (confidences @ [confidence]) (Suc n)))))))
      else (Inr (decoder_seq, confidences), n))"
  by pat_completeness auto
termination
  by (relation "measure (\<lambda>(U, A, enc_padded, end_idx, t, decoder_seq, confidences, n).
        max_khm_len A + 10 - t)") auto

declare greedy_loop.simps [simp del]

text \<open>
  The loop \<open>for idx in decoder_seq[1:]\<close> that collects \<open>decoded_chars\<close>, and the join.
\<close>

fun decode_loop :: "tokenizer \<Rightarrow> int \<Rightarrow> int list \<Rightarrow> ustr list" where
  "decode_loop tok end_idx [] = []"
| "decode_loop tok end_idx (idx # rest) =
     (if idx = end_idx then []
      else (case index_word tok idx of None \<Rightarrow> [] | Some char \<Rightarrow> char)
             # decode_loop tok end_idx rest)"

definition decode_result :: "tokenizer \<Rightarrow> int \<Rightarrow> int list \<Rightarrow> ustr" where
  "decode_result tok end_idx decoder_seq = concat (decode_loop tok end_idx (drop 1 decoder_seq))"

text \<open>
  The statements after the loop: the decoded string, the mean confidence as a percentage,
  the fallback for an empty or blank string, and the rounding of the returned confidence.
\<close>

definition build_output ::
  "py_env \<Rightarrow> tokenizer \<Rightarrow> int \<Rightarrow> ustr \<Rightarrow> int list \<Rightarrow> real list \<Rightarrow> ustr \<times> real" where
  "build_output U tok end_idx eng_input decoder_seq confidences =
     (let result = decode_result tok end_idx decoder_seq;
          avg_conf = (if confidences \<noteq> [] then mean confidences * 100 else 0)
      in
      if empty_or_isspace U result then (bracket eng_input, round2 0)
      else (result, round2 avg_conf))"

text \<open>
  The body of the \<open>try\<close> block, entered with a non-empty cleaned word. \<open>'\t'\<close> and
  \<open>'\n'\<close> are the one-character strings of code points 9 and 10.
\<close>

definition predict_body ::
  "py_env \<Rightarrow> assets \<Rightarrow> ustr \<Rightarrow> ustr \<Rightarrow> nat \<Rightarrow> (error + ustr \<times> real) \<times> nat" where
  "predict_body U A eng_input cleaned n =
     (case texts_to_sequences (eng_tokenizer A) [cleaned] of
        Inl e \<Rightarrow> (Inl e, n)
      | Inr seqs \<Rightarrow>
          (let enc_seq =
                 (if seqs = [] \<or> length (hd seqs) = 0
                  then [encode_chars (eng_tokenizer A) cleaned]
                  else seqs)
           in
           case pad_sequences U enc_seq (max_eng_len A) Post of
             Inl e \<Rightarrow> (Inl e, n)
           | Inr enc_padded \<Rightarrow>
               (case word_index (khm_tokenizer A) [9] of
                  None \<Rightarrow> (Inr (bracket eng_input, 0), n)
                | Some start_idx \<Rightarrow>
                    (case word_index (khm_tokenizer A) [10] of
                       None \<Rightarrow> (Inr (bracket eng_input, 0), n)
                     | Some end_idx \<Rightarrow>
                         (case greedy_loop U A enc_padded end_idx 0 [start_idx] [] n of
                            (Inl e, n') \<Rightarrow> (Inl e, n')
                          | (Inr (decoder_seq, confidences), n') \<Rightarrow>
                              (Inr (build_output U (khm_tokenizer A) end_idx eng_input
                                      decoder_seq confidences), n'))))))"

text \<open>
  The whole method: initialization and cleaning happen before the \<open>try\<close> block, so a
  failing initialization propagates; an exception of the body is caught and replaced by
  the fallback pair.
\<close>

definition predict_khmer_with_confidence ::
  "py_env \<Rightarrow> error + assets \<Rightarrow> loader \<Rightarrow> ustr \<Rightarrow> (error + ustr \<times> real) \<times> loader" where
  "predict_khmer_with_confidence U disk L eng_input =
     (case initialize disk L of
        Inl e \<Rightarrow> (Inl e, L)
      | Inr (L1, A) \<Rightarrow>
          (let cleaned = clean_text U eng_input in
           if length cleaned = 0 then (Inr ([], 0), L1)
           else
             (case predict_body U A eng_input cleaned (forward_passes L1) of
                (Inl e, n) \<Rightarrow> (Inr (bracket eng_input, 0), L1\<lparr>forward_passes := n\<rparr>)
              | (Inr r, n) \<Rightarrow> (Inr r, L1\<lparr>forward_passes := n\<rparr>))))"

section \<open>Translation orchestrator (\<open>TranslationService\<close>)\<close>

definition translate_single_word ::
  "py_env \<Rightarrow> error + assets \<Rightarrow> loader \<Rightarrow> ustr \<Rightarrow> (ustr \<times> real) \<times> loader" where
  "translate_single_word U disk L word =
     (case predict_khmer_with_confidence U disk L word of
        (Inl e, L') \<Rightarrow> ((bracket word, 0), L')
      | (Inr r, L') \<Rightarrow> (r, L'))"

record word_translation =
  wt_input :: ustr
  wt_translation :: ustr
  wt_confidence :: real

record translation_result =
  input_text :: ustr
  translation :: ustr
  word_translations :: "word_translation list"
  average_confidence :: real
  word_count :: nat

text \<open>The loop \<open>for word in words\<close> with its accumulators.\<close>

fun translate_loop ::
  "py_env \<Rightarrow> error + assets \<Rightarrow> ustr list \<Rightarrow> word_translation list \<Rightarrow> real \<Rightarrow> loader \<Rightarrow>
     word_translation list \<times> real \<times> loader" where
  "translate_loop U disk [] results total_confidence L = (results, total_confidence, L)"
| "translate_loop U disk (word # words) results total_confidence L =
     (case translate_single_word U disk L word of
        ((translated, confidence), L') \<Rightarrow>
          translate_loop U disk words
            (results @ [\<lparr>wt_input = word, wt_translation = translated, wt_confidence = confidence\<rparr>])
            (total_confidence + confidence) L')"

definition translate_text ::
  "py_env \<Rightarrow> error + assets \<Rightarrow> loader \<Rightarrow> ustr \<Rightarrow> translation_result \<times> loader" where
  "translate_text U disk L text =
     (let words = str_split U text in
      if words = [] then
        (\<lparr>input_text = text, translation = [], word_translations = [],
          average_confidence = 0, word_count = 0\<rparr>, L)
      else
        (case translate_loop U disk words [] 0 L of
           (results, total_confidence, L') \<Rightarrow>
             (let full_translation = concat (map wt_translation results);
                  avg_confidence = (if results \<noteq> []
                                    then total_confidence / real (length results) else 0)
              in (\<lparr>input_text = text, translation = full_translation,
                    word_translations = results,
                    average_confidence = round2 avg_confidence,
                    word_count = length words\<rparr>, L'))))"

section \<open>Specification-side notions\<close>

text \<open>
  The decoded string as the specification words it: skip the start token, stop before the
  first end token, look every remaining index up in the target vocabulary (the empty
  string where there is no entry), and concatenate.
\<close>

definition vocab_decode :: "tokenizer \<Rightarrow> int \<Rightarrow> ustr" where
  "vocab_decode tok idx = (case index_word tok idx of None \<Rightarrow> [] | Some char \<Rightarrow> char)"

definition decoded_output_spec :: "tokenizer \<Rightarrow> int \<Rightarrow> int list \<Rightarrow> ustr" where
  "decoded_output_spec tok end_idx decoder_seq =
     concat (map (vocab_decode tok) (takeWhile (\<lambda>idx. idx \<noteq> end_idx) (tl decoder_seq)))"


text \<open>
  The assets a call works with: those already loaded, otherwise what loading yields.
\<close>

definition engine_assets :: "error + assets \<Rightarrow> loader \<Rightarrow> error + assets" where
  "engine_assets disk L = (case loaded L of Some A \<Rightarrow> Inr A | None \<Rightarrow> disk)"


text \<open>The per-word entry of a word, from its single-word translation.\<close>

definition word_entry :: "py_env \<Rightarrow> error + assets \<Rightarrow> loader \<Rightarrow> ustr \<Rightarrow> word_translation" where
  "word_entry U disk L w =
     \<lparr>wt_input = w,
      wt_translation = fst (fst (translate_single_word U disk L w)),
      wt_confidence = snd (fst (translate_single_word U disk L w))\<rparr>"

section \<open>Example artifacts for concrete evaluations\<close>

text \<open>
  Case mapping and whitespace restricted to ASCII, with the conversion to \<open>np.int32\<close> of
  NumPy 2 (every integer outside the range is refused) and, as \<open>wrapping_env\<close>, the one
  that refuses none and wraps; a two-letter source vocabulary whose
  word-level lookup finds nothing; a target vocabulary with start token 1, end token 2
  and the Khmer letter KA (U+1780) at index 3; and a model that emits index 3 with
  probability 0.9 and then the end token with probability 0.8.
\<close>

definition ascii_env :: py_env where
  "ascii_env =
     \<lparr>str_lower = map (\<lambda>c. if 65 \<le> c \<and> c \<le> 90 then c + 32 else c),
      str_isspace = (\<lambda>c. c = 32 \<or> (9 \<le> c \<and> c \<le> 13) \<or> (28 \<le> c \<and> c \<le> 31)),
      int32_refuses = (\<lambda>x. True)\<rparr>"

definition wrapping_env :: py_env where
  "wrapping_env = ascii_env\<lparr>int32_refuses := (\<lambda>x. False)\<rparr>"

definition demo_eng :: tokenizer where
  "demo_eng =
     \<lparr>word_index = [[97] \<mapsto> 2, [98] \<mapsto> 3],
      index_word = [2 \<mapsto> [97], 3 \<mapsto> [98]],
      texts_to_sequences = (\<lambda>texts. Inr (map (\<lambda>t. []) texts))\<rparr>"

definition demo_khm :: tokenizer where
  "demo_khm =
     \<lparr>word_index = [[9] \<mapsto> 1, [10] \<mapsto> 2, [6016] \<mapsto> 3],
      index_word = [1 \<mapsto> [9], 2 \<mapsto> [10], 3 \<mapsto> [6016]],
      texts_to_sequences = (\<lambda>texts. Inr (map (\<lambda>t. []) texts))\<rparr>"

definition demo_model :: "int list list \<Rightarrow> int list list \<Rightarrow> error + ndarray3" where
  "demo_model enc dec =
     Inr \<lparr>dim0 = 1, dim1 = 3, dim2 = 4,
          cell = (\<lambda>b t v. if t = 0 then (if v = 3 then 9/10 else 1/30)
                           else (if v = 2 then 8/10 else 1/15))\<rparr>"

definition demo_assets :: assets where
  "demo_assets =
     \<lparr>model_predict = demo_model, eng_tokenizer = demo_eng, khm_tokenizer = demo_khm,
      max_eng_len = 4, max_khm_len = 2\<rparr>"

definition demo_loader :: loader where
  "demo_loader = \<lparr>loaded = Some demo_assets, forward_passes = 0\<rparr>"

text \<open>The same target vocabulary without the end token \<open>'\n'\<close>.\<close>

definition no_end_khm :: tokenizer where
  "no_end_khm =
     \<lparr>word_index = [[9] \<mapsto> 1, [6016] \<mapsto> 3],
      index_word = [1 \<mapsto> [9], 3 \<mapsto> [6016]],
      texts_to_sequences = (\<lambda>texts. Inr (map (\<lambda>t. []) texts))\<rparr>"

definition no_end_loader :: loader where
  "no_end_loader =
     \<lparr>loaded = Some (demo_assets\<lparr>khm_tokenizer := no_end_khm\<rparr>), forward_passes = 0\<rparr>"





text \<open>A loader that has not been initialized, and a disk without the model file.\<close>

definition fresh_loader :: loader where
  "fresh_loader = \<lparr>loaded = None, forward_passes = 0\<rparr>"

definition no_files :: "error + assets" where
  "no_files = Inl FileNotFoundError"

section \<open>Properties of the padding utility\<close>

lemma wrap_int32_in_range:
  "in_int32 (wrap_int32 x)"
proof -
  have "0 \<le> (x + 2147483648) mod 4294967296" by simp
  moreover have "(x + 2147483648) mod 4294967296 < 4294967296" by simp
  ultimately show ?thesis unfolding in_int32_def wrap_int32_def by linarith
qed

lemma to_int32_in_range:
  "to_int32 U x = Inr y \<Longrightarrow> in_int32 y"
  using wrap_int32_in_range [of x] by (auto simp add: to_int32_def split: if_splits)

lemma to_int32_list_length:
  "to_int32_list U v = Inr c \<Longrightarrow> length c = length v"
  by (induction v arbitrary: c) (auto split: sum.splits)

lemma to_int32_list_in_range:
  "to_int32_list U v = Inr c \<Longrightarrow> list_all in_int32 c"
  by (induction v arbitrary: c) (auto split: sum.splits dest: to_int32_in_range)

lemma to_int32_list_id:
  "list_all in_int32 v \<Longrightarrow> to_int32_list U v = Inr v"
  by (induction v) (simp_all add: to_int32_def)

lemma to_int32_list_Nil:
  "to_int32_list U v = Inr [] \<longleftrightarrow> v = []"
  by (cases v) (auto split: sum.splits)

lemma pad_row_post:
  "pad_row U maxlen Post seq =
     (case to_int32_list U (take maxlen seq) of
        Inl e \<Rightarrow> Inl e
      | Inr c \<Rightarrow> Inr (c @ replicate (maxlen - length seq) 0))"
proof (cases "to_int32_list U (take maxlen seq)")
  case (Inl e)
  then show ?thesis
    by (auto simp add: pad_row_def np_assign_def Let_def min_def)
next
  case (Inr c)
  from to_int32_list_length [OF Inr] have "length c = min (length seq) maxlen" by simp
  with Inr show ?thesis
    by (auto simp add: pad_row_def np_assign_def np_broadcast_def Let_def min_def)
qed

lemma pad_row_pre_ok:
  assumes "seq \<noteq> []" "0 < maxlen"
  shows "pad_row U maxlen Pre seq =
           (case to_int32_list U (drop (length seq - maxlen) seq) of
              Inl e \<Rightarrow> Inl e
            | Inr c \<Rightarrow> Inr (replicate (maxlen - length seq) 0 @ c))"
proof (cases "to_int32_list U (drop (length seq - maxlen) seq)")
  case (Inl e)
  with assms show ?thesis
    by (auto simp add: pad_row_def np_assign_def Let_def neg_slice_start_def)
next
  case (Inr c)
  from to_int32_list_length [OF Inr] have "length c = length seq - (length seq - maxlen)"
    by simp
  with Inr assms show ?thesis
    by (auto simp add: pad_row_def np_assign_def np_broadcast_def Let_def neg_slice_start_def)
qed

lemma np_assign_length:
  assumes "np_assign U row lo hi v = Inr r" and "lo \<le> hi" and "hi \<le> length row"
  shows "length r = length row"
  using assms
  by (auto simp add: np_assign_def np_broadcast_def split: sum.splits if_splits)

lemma np_assign_in_range:
  assumes "np_assign U row lo hi v = Inr r" and "list_all in_int32 row"
  shows "list_all in_int32 r"
proof -
  from assms(1) obtain c b where c: "to_int32_list U v = Inr c"
    and b: "np_broadcast (hi - lo) c = Inr b" and r: "r = take lo row @ b @ drop hi row"
    by (auto simp add: np_assign_def split: sum.splits)
  from to_int32_list_in_range [OF c] have cr: "list_all in_int32 c" .
  have "list_all in_int32 b"
  proof (cases "length c = hi - lo")
    case True
    with b cr show ?thesis by (simp add: np_broadcast_def)
  next
    case False
    with b have l: "length c = 1" and bb: "b = replicate (hi - lo) (hd c)"
      by (auto simp add: np_broadcast_def split: if_splits)
    from l cr have "in_int32 (hd c)" by (cases c) simp_all
    with bb show ?thesis by (simp add: list_all_iff)
  qed
  moreover from assms(2) have "list_all in_int32 (take lo row)" "list_all in_int32 (drop hi row)"
    by (auto simp add: list_all_iff dest: in_set_takeD in_set_dropD)
  ultimately show ?thesis by (simp add: r)
qed

lemma pad_row_length:
  "pad_row U maxlen pad seq = Inr r \<Longrightarrow> length r = maxlen"
  by (cases pad)
     (auto simp add: pad_row_def Let_def neg_slice_start_def
           dest!: np_assign_length split: if_splits)

lemma pad_row_in_range:
  "pad_row U maxlen pad seq = Inr r \<Longrightarrow> list_all in_int32 r"
  by (cases pad)
     (auto simp add: pad_row_def Let_def in_int32_def list_all_iff
           dest!: np_assign_in_range split: if_splits)

lemma pad_row_exact:
  "list_all in_int32 seq \<Longrightarrow> pad_row U (length seq) pad seq = Inr seq"
  by (cases pad)
     (auto simp add: pad_row_def np_assign_def np_broadcast_def Let_def neg_slice_start_def
           to_int32_list_id)

lemma pad_row_idem:
  "pad_row U maxlen pad seq = Inr r \<Longrightarrow> pad_row U maxlen pad r = Inr r"
  using pad_row_length [of U maxlen pad seq r] pad_row_in_range [of U maxlen pad seq r]
    pad_row_exact [of r U pad]
  by simp

lemma pad_sequences_single:
  "pad_sequences U [seq] maxlen pad =
     (case pad_row U maxlen pad seq of Inl e \<Rightarrow> Inl e | Inr r \<Rightarrow> Inr [r])"
  by (simp split: sum.splits)

lemma pad_sequences_post:
  "list_all (list_all in_int32) seqs \<Longrightarrow>
     pad_sequences U seqs maxlen Post =
       Inr (map (\<lambda>seq. take maxlen seq @ replicate (maxlen - length seq) 0) seqs)"
proof (induction seqs)
  case Nil
  then show ?case by simp
next
  case (Cons seq rest)
  from Cons.prems have "list_all in_int32 (take maxlen seq)"
    by (auto simp add: list_all_iff dest: in_set_takeD)
  then have "to_int32_list U (take maxlen seq) = Inr (take maxlen seq)"
    by (rule to_int32_list_id)
  with Cons show ?case by (simp add: pad_row_post)
qed

lemma pad_examples:
  "pad_sequences U [[1, 2, 3]] 5 Post = Inr [[1, 2, 3, 0, 0]]"
  "pad_sequences U [[1, 2, 3, 4, 5, 6]] 4 Post = Inr [[1, 2, 3, 4]]"
  "pad_sequences U [[1, 2, 3]] 5 Pre = Inr [[0, 0, 1, 2, 3]]"
  by (simp_all add: pad_row_def np_assign_def np_broadcast_def Let_def neg_slice_start_def
        to_int32_def in_int32_def numeral_eq_Suc)

text \<open>
  Claim C6. The padding utility is claimed to return, for every list of sequences, every
  \<open>max_length\<close> and both alignments, a zero-filled array with one row of \<open>max_length\<close>
  entries per sequence. Under front alignment the source writes the target slice as
  \<open>padded[i, -len(seq):]\<close>; for an empty sequence this is \<open>padded[i, 0:]\<close>, the whole
  row, and assigning the empty list to a row of three entries raises \<open>ValueError\<close>
  instead of leaving the row of zeros. No element is converted, so this holds whatever
  NumPy does with integers outside the \<open>np.int32\<close> range.
\<close>

theorem pad_sequences_pre_empty_raises:
  "pad_sequences U [[]] 3 Pre = Inl ValueError"
  by (simp add: pad_row_def np_assign_def np_broadcast_def Let_def neg_slice_start_def)

text \<open>
  Claim C10, as the code has it. The rows are stored in an \<open>np.int32\<close> array, so a
  sequence whose length is exactly \<open>max_length\<close> is padded to itself when all its elements
  lie in the \<open>np.int32\<close> range; and padding is idempotent for both alignments: whenever
  padding a sequence returns an array, padding that array again, with the same
  \<open>max_length\<close> and alignment, returns it unchanged.
\<close>

theorem pad_sequences_exact_and_idempotent:
  "(list_all in_int32 s \<longrightarrow> pad_sequences U [s] (length s) pad = Inr [s]) \<and>
   (\<forall>rows. pad_sequences U [s] m pad = Inr rows \<longrightarrow>
            pad_sequences U rows m pad = Inr rows)"
proof (intro conjI impI allI)
  assume "list_all in_int32 s"
  then show "pad_sequences U [s] (length s) pad = Inr [s]"
    by (simp add: pad_sequences_single pad_row_exact)
next
  fix rows assume run: "pad_sequences U [s] m pad = Inr rows"
  then obtain r where r: "pad_row U m pad s = Inr r" and rows: "rows = [r]"
    by (auto simp add: pad_sequences_single split: sum.splits)
  from r have "pad_row U m pad r = Inr r" by (rule pad_row_idem)
  with rows show "pad_sequences U rows m pad = Inr rows"
    by (simp add: pad_sequences_single)
qed

theorem pad_sequences_exact_and_idempotent_witness:
  "list_all in_int32 [1, 2, 3] \<and>
   pad_sequences ascii_env [[1, 2, 3]] 3 Pre = Inr [[1, 2, 3]] \<and>
   pad_sequences ascii_env [[1, 2, 3]] 5 Pre = Inr [[0, 0, 1, 2, 3]] \<and>
   pad_sequences ascii_env [[0, 0, 1, 2, 3]] 5 Pre = Inr [[0, 0, 1, 2, 3]]"
proof -
  note inst = pad_sequences_exact_and_idempotent [of "[1, 2, 3]" ascii_env Pre 5]
  have r: "list_all in_int32 [1, 2, 3]" by (simp add: in_int32_def)
  have p: "pad_sequences ascii_env [[1, 2, 3]] 5 Pre = Inr [[0, 0, 1, 2, 3]]"
    by (rule pad_examples(3))
  have l: "length [1, 2, 3 :: int] = 3" by simp
  from inst [THEN conjunct1, rule_format, OF r]
  have a: "pad_sequences ascii_env [[1, 2, 3]] 3 Pre = Inr [[1, 2, 3]]" by (simp only: l)
  from inst [THEN conjunct2, rule_format, OF p]
  have b: "pad_sequences ascii_env [[0, 0, 1, 2, 3]] 5 Pre = Inr [[0, 0, 1, 2, 3]]" .
  from r a p b show ?thesis by simp
qed

text \<open>
  Without the range the first half fails: the one-element sequence \<open>[2147483648]\<close>, padded
  to \<open>max_length\<close> 1, raises \<open>OverflowError\<close> where NumPy refuses the integer and comes
  back as \<open>[-2147483648]\<close> where NumPy wraps it; in neither case is it returned unchanged.
\<close>

theorem pad_sequences_int32_counterexample:
  "length [2147483648 :: int] = 1 \<and>
   pad_sequences ascii_env [[2147483648]] 1 Post = Inl OverflowError \<and>
   pad_sequences wrapping_env [[2147483648]] 1 Post = Inr [[- 2147483648]] \<and>
   pad_sequences ascii_env [[2147483648]] 1 Post \<noteq> Inr [[2147483648]] \<and>
   pad_sequences wrapping_env [[2147483648]] 1 Post \<noteq> Inr [[2147483648]]"
  by (simp add: pad_row_def np_assign_def np_broadcast_def Let_def to_int32_def in_int32_def
        wrap_int32_def ascii_env_def wrapping_env_def)

section \<open>Output construction\<close>

lemma decode_loop_spec:
  "concat (decode_loop tok end_idx xs) =
     concat (map (vocab_decode tok) (takeWhile (\<lambda>idx. idx \<noteq> end_idx) xs))"
  by (induction xs) (simp_all add: vocab_decode_def)

text \<open>
  Claim C4. The decoded string the engine builds from a decoder sequence is the one the
  specification describes: the start token is skipped, the iteration stops before the
  first end token, every remaining index is looked up in the target vocabulary, an index
  without entry contributing the empty string, and the pieces are concatenated without
  separator.
\<close>

theorem decode_result_refines_spec:
  "decode_result tok end_idx decoder_seq = decoded_output_spec tok end_idx decoder_seq"
  by (simp add: decode_result_def decoded_output_spec_def decode_loop_spec drop_Suc)

section \<open>Inputs without words\<close>

lemma str_split_from_Nil_iff:
  "str_split_from U cur s = [] \<longleftrightarrow> cur = [] \<and> list_all (str_isspace U) s"
  by (induction s arbitrary: cur) auto

lemma str_split_Nil_iff:
  "str_split U s = [] \<longleftrightarrow> list_all (str_isspace U) s"
  by (simp add: str_split_def str_split_from_Nil_iff)

text \<open>
  Claim C8. A text splits into zero words exactly when it is empty or consists of
  whitespace only; for such a text \<open>translate_text\<close> returns the empty translation,
  average confidence 0, word count 0 and no per-word entries, and leaves the loader as it
  was: the engine is neither initialized nor asked for a forward pass.
\<close>

theorem translate_text_no_words:
  "(str_split U s = [] \<longleftrightarrow> list_all (str_isspace U) s) \<and>
   (str_split U s = [] \<longrightarrow>
      translate_text U disk L s =
        (\<lparr>input_text = s, translation = [], word_translations = [],
          average_confidence = 0, word_count = 0\<rparr>, L))"
  by (simp add: str_split_Nil_iff translate_text_def)

theorem translate_text_no_words_witness:
  "str_split ascii_env [32, 9, 32] = [] \<and>
   str_split ascii_env [] = [] \<and>
   translate_text ascii_env no_files fresh_loader [32, 9, 32] =
     (\<lparr>input_text = [32, 9, 32], translation = [], word_translations = [],
       average_confidence = 0, word_count = 0\<rparr>, fresh_loader)"
proof -
  have a: "str_split ascii_env [32, 9, 32] = []" by code_simp
  have b: "str_split ascii_env [] = []" by code_simp
  from a translate_text_no_words [of ascii_env "[32, 9, 32]" no_files fresh_loader]
  show ?thesis using b by simp
qed

section \<open>Early returns of the engine\<close>

lemma initialize_forward_passes:
  "initialize disk L = Inr (L1, A) \<Longrightarrow>
     forward_passes L1 = forward_passes L \<and> loaded L1 = Some A"
  by (auto simp add: initialize_def split: option.splits sum.splits)

text \<open>
  Claim C9, as the code has it. The engine calls \<open>initialize\<close> before it normalizes the
  word, so the early return is reached on an engine that is initialized, or initializes
  successfully on this call: there a word whose normalization is the empty string yields
  exactly the pair of the empty string and confidence 0, from the engine and from the
  orchestrator's single-word call alike, and the count of forward passes is the one before
  the call.
\<close>

theorem predict_empty_after_cleaning:
  assumes "clean_text U eng_input = []" and "initialize disk L = Inr (L1, A)"
  shows "predict_khmer_with_confidence U disk L eng_input = (Inr ([], 0), L1) \<and>
         translate_single_word U disk L eng_input = (([], 0), L1) \<and>
         forward_passes L1 = forward_passes L"
  using assms initialize_forward_passes [of disk L L1 A]
  by (simp add: predict_khmer_with_confidence_def translate_single_word_def)

theorem predict_empty_after_cleaning_witness:
  "clean_text ascii_env [32, 49, 50, 33] = [] \<and>
   predict_khmer_with_confidence ascii_env no_files demo_loader [32, 49, 50, 33]
     = (Inr ([], 0), demo_loader) \<and>
   translate_single_word ascii_env no_files demo_loader [32, 49, 50, 33]
     = (([], 0), demo_loader) \<and>
   forward_passes demo_loader = 0"
proof -
  have c: "clean_text ascii_env [32, 49, 50, 33] = []" by code_simp
  have i: "initialize no_files demo_loader = Inr (demo_loader, demo_assets)"
    by (simp add: initialize_def demo_loader_def)
  have f: "forward_passes demo_loader = 0" by (simp add: demo_loader_def)
  from predict_empty_after_cleaning [OF c i] c f show ?thesis by simp
qed

text \<open>
  Without that condition the claim fails: on an engine whose files cannot be loaded, the
  word \<open>1\<close>, whose normalization is empty, makes the engine raise \<open>FileNotFoundError\<close>
  from \<open>initialize\<close>, and the orchestrator's single-word call returns the bracket-wrapped
  word \<open>[1]\<close> with confidence 0, not the empty string.
\<close>

theorem empty_after_cleaning_unloaded_counterexample:
  "clean_text ascii_env [49] = [] \<and>
   predict_khmer_with_confidence ascii_env no_files fresh_loader [49]
     = (Inl FileNotFoundError, fresh_loader) \<and>
   translate_single_word ascii_env no_files fresh_loader [49]
     = (([91, 49, 93], 0), fresh_loader) \<and>
   fst (predict_khmer_with_confidence ascii_env no_files fresh_loader [49]) \<noteq> Inr ([], 0) \<and>
   fst (translate_single_word ascii_env no_files fresh_loader [49]) \<noteq> ([], 0)"
proof -
  have c: "clean_text ascii_env [49] = []" by code_simp
  have p: "predict_khmer_with_confidence ascii_env no_files fresh_loader [49]
             = (Inl FileNotFoundError, fresh_loader)"
    by (simp add: predict_khmer_with_confidence_def initialize_def no_files_def
          fresh_loader_def)
  then have t: "translate_single_word ascii_env no_files fresh_loader [49]
             = (([91, 49, 93], 0), fresh_loader)"
    by (simp add: translate_single_word_def bracket_def)
  from c p t show ?thesis by simp
qed

lemma predict_body_missing_token:
  assumes "word_index (khm_tokenizer A) [9] = None \<or> word_index (khm_tokenizer A) [10] = None"
  shows "predict_body U A w cl n = (Inr (bracket w, 0), n) \<or>
         (\<exists>e. predict_body U A w cl n = (Inl e, n))"
  using assms
  by (auto simp add: predict_body_def Let_def split: sum.splits option.splits)

text \<open>
  Claim C2, as the code has it. The check for an empty normalization comes before the
  vocabulary is consulted, so the bracket-wrapped echo is returned for the words whose
  normalization is not empty: for an engine that is initialized (or initializes on this
  call) and whose target vocabulary lacks the start token or the end token, such a word
  yields exactly the pair of the bracket-wrapped original word and confidence 0, as a
  returned value, and no forward pass is made.
\<close>

theorem missing_control_token_fallback:
  assumes "initialize disk L = Inr (L1, A)"
      and "word_index (khm_tokenizer A) [9] = None \<or> word_index (khm_tokenizer A) [10] = None"
      and "clean_text U w \<noteq> []"
  shows "predict_khmer_with_confidence U disk L w = (Inr (bracket w, 0), L1) \<and>
         translate_single_word U disk L w = ((bracket w, 0), L1) \<and>
         forward_passes L1 = forward_passes L"
proof -
  from predict_body_missing_token [OF assms(2), of U w "clean_text U w" "forward_passes L1"]
  have "predict_khmer_with_confidence U disk L w = (Inr (bracket w, 0), L1)"
    using assms(1,3) by (auto simp add: predict_khmer_with_confidence_def)
  then show ?thesis
    using initialize_forward_passes [OF assms(1)] by (simp add: translate_single_word_def)
qed

theorem missing_control_token_fallback_witness:
  "clean_text ascii_env [65] \<noteq> [] \<and>
   predict_khmer_with_confidence ascii_env no_files no_end_loader [65]
     = (Inr ([91, 65, 93], 0), no_end_loader) \<and>
   translate_single_word ascii_env no_files no_end_loader [65]
     = (([91, 65, 93], 0), no_end_loader)"
proof -
  have i: "initialize no_files no_end_loader =
             Inr (no_end_loader, demo_assets\<lparr>khm_tokenizer := no_end_khm\<rparr>)"
    by (simp add: initialize_def no_end_loader_def)
  have m: "word_index (khm_tokenizer (demo_assets\<lparr>khm_tokenizer := no_end_khm\<rparr>)) [9] = None \<or>
           word_index (khm_tokenizer (demo_assets\<lparr>khm_tokenizer := no_end_khm\<rparr>)) [10] = None"
    by (simp add: no_end_khm_def)
  have c: "clean_text ascii_env [65] \<noteq> []" by code_simp
  from missing_control_token_fallback [OF i m c] c show ?thesis by (simp add: bracket_def)
qed

text \<open>
  The claim as stated fails for a word whose normalization is empty: with the end token
  missing, the word \<open>"1"\<close> yields the empty string, not \<open>"[1]"\<close>.
\<close>

theorem missing_token_empty_word_counterexample:
  "loaded no_end_loader = Some (demo_assets\<lparr>khm_tokenizer := no_end_khm\<rparr>) \<and>
   word_index (khm_tokenizer (demo_assets\<lparr>khm_tokenizer := no_end_khm\<rparr>)) [10] = None \<and>
   fst (predict_khmer_with_confidence ascii_env no_files no_end_loader [49]) = Inr ([], 0) \<and>
   fst (predict_khmer_with_confidence ascii_env no_files no_end_loader [49])
     \<noteq> Inr (bracket [49], 0)"
proof -
  have a: "loaded no_end_loader = Some (demo_assets\<lparr>khm_tokenizer := no_end_khm\<rparr>)"
    by (simp add: no_end_loader_def)
  have b: "word_index (khm_tokenizer (demo_assets\<lparr>khm_tokenizer := no_end_khm\<rparr>)) [10] = None"
    by (simp add: no_end_khm_def)
  have c: "fst (predict_khmer_with_confidence ascii_env no_files no_end_loader [49]) = Inr ([], 0)"
    by code_simp
  from a b c show ?thesis by (simp add: bracket_def)
qed

section \<open>Failure semantics\<close>



section \<open>The greedy decode loop\<close>

lemma greedy_loop_step:
  assumes "greedy_loop U A enc end_idx t ds cs n = (r, n')"
  shows "(\<not> t < max_khm_len A + 10 \<and> r = Inr (ds, cs) \<and> n' = n) \<or>
         (t < max_khm_len A + 10 \<and> (n' = n \<or> n' = Suc n) \<and> (\<exists>err. r = Inl err)) \<or>
         (t < max_khm_len A + 10 \<and> n' = Suc n \<and> r = Inr (ds, cs) \<and>
            (\<exists>dec preds. pad_sequences U [ds] (max_khm_len A + 1) Post = Inr dec \<and>
               model_predict A enc dec = Inr preds \<and>
               int (dim1 preds) \<le> int (length ds) - 1)) \<or>
         (t < max_khm_len A + 10 \<and> n' = Suc n \<and>
            (\<exists>dec preds probs k. pad_sequences U [ds] (max_khm_len A + 1) Post = Inr dec \<and>
               model_predict A enc dec = Inr preds \<and>
               preds_row preds 0 (int (length ds) - 1) = Inr probs \<and>
               argmax probs = Inr k \<and>
               (int k = end_idx \<or> t = max_khm_len A + 9) \<and>
               r = Inr (ds @ [int k], cs @ [probs ! k]))) \<or>
         (Suc t < max_khm_len A + 10 \<and>
            (\<exists>dec preds probs k. pad_sequences U [ds] (max_khm_len A + 1) Post = Inr dec \<and>
               model_predict A enc dec = Inr preds \<and>
               preds_row preds 0 (int (length ds) - 1) = Inr probs \<and>
               argmax probs = Inr k \<and> int k \<noteq> end_idx \<and>
               greedy_loop U A enc end_idx (Suc t) (ds @ [int k]) (cs @ [probs ! k]) (Suc n)
                 = (r, n')))"
proof -
  note unf = greedy_loop.simps [of U A enc end_idx t ds cs n]
  from assms show ?thesis
    by (auto simp add: unf Let_def split: sum.splits if_splits)
qed

lemma greedy_loop_passes:
  "greedy_loop U A enc end_idx t ds cs n = (r, n') \<Longrightarrow>
     n \<le> n' \<and> n' \<le> n + (max_khm_len A + 10 - t)"
proof (induction "max_khm_len A + 10 - t" arbitrary: t ds cs n)
  case 0
  from greedy_loop_step [OF "0.prems"] "0.hyps" show ?case by auto
next
  case (Suc m)
  from greedy_loop_step [OF Suc.prems] show ?case
  proof (elim disjE conjE exE)
    fix dec preds probs k
    assume lt: "Suc t < max_khm_len A + 10"
      and rec: "greedy_loop U A enc end_idx (Suc t) (ds @ [int k]) (cs @ [probs ! k]) (Suc n)
                  = (r, n')"
    from Suc.hyps(2) lt have "m = max_khm_len A + 10 - Suc t" by simp
    from Suc.hyps(1) [OF this rec] lt show ?thesis by linarith
  qed (use Suc.hyps(2) in auto)
qed

lemma greedy_loop_lengths:
  "greedy_loop U A enc end_idx t ds cs n = (Inr (ds', cs'), n') \<Longrightarrow>
     length ds' \<le> length ds + (max_khm_len A + 10 - t) \<and>
     length ds' + length cs = length ds + length cs'"
proof (induction "max_khm_len A + 10 - t" arbitrary: t ds cs n)
  case 0
  from greedy_loop_step [OF "0.prems"] "0.hyps" show ?case by auto
next
  case (Suc m)
  from greedy_loop_step [OF Suc.prems] show ?case
  proof (elim disjE conjE exE)
    fix dec preds probs k
    assume lt: "Suc t < max_khm_len A + 10"
      and rec: "greedy_loop U A enc end_idx (Suc t) (ds @ [int k]) (cs @ [probs ! k]) (Suc n)
                  = (Inr (ds', cs'), n')"
    from Suc.hyps(2) lt have "m = max_khm_len A + 10 - Suc t" by simp
    from Suc.hyps(1) [OF this rec]
    have "length ds' \<le> Suc (length ds) + (max_khm_len A + 10 - Suc t)"
      and "length ds' + Suc (length cs) = Suc (length ds) + length cs'"
      by simp_all
    with lt show ?thesis by linarith
  qed (use Suc.hyps(2) in auto)
qed

lemma greedy_loop_normal_exit:
  "greedy_loop U A enc end_idx t ds cs n = (Inr (ds', cs'), n') \<Longrightarrow>
     (length ds < length ds' \<and> last ds' = end_idx) \<or>
     n' = n + (max_khm_len A + 10 - t) \<or>
     (\<exists>dec preds. pad_sequences U [ds'] (max_khm_len A + 1) Post = Inr dec \<and>
        model_predict A enc dec = Inr preds \<and> int (dim1 preds) \<le> int (length ds') - 1)"
proof (induction "max_khm_len A + 10 - t" arbitrary: t ds cs n)
  case 0
  from greedy_loop_step [OF "0.prems"] "0.hyps" show ?case by auto
next
  case (Suc m)
  from greedy_loop_step [OF Suc.prems] show ?case
  proof (elim disjE conjE exE)
    fix dec preds probs k
    assume lt: "Suc t < max_khm_len A + 10"
      and rec: "greedy_loop U A enc end_idx (Suc t) (ds @ [int k]) (cs @ [probs ! k]) (Suc n)
                  = (Inr (ds', cs'), n')"
    from Suc.hyps(2) lt have "m = max_khm_len A + 10 - Suc t" by simp
    from Suc.hyps(1) [OF this rec] lt show ?thesis by auto
  qed (use Suc.hyps(2) in auto)
qed


lemma greedy_loop_exit_out_of_bounds:
  assumes "t < max_khm_len A + 10"
      and "pad_sequences U [ds] (max_khm_len A + 1) Post = Inr dec"
      and "model_predict A enc dec = Inr preds"
      and "int (dim1 preds) \<le> int (length ds) - 1"
  shows "greedy_loop U A enc end_idx t ds cs k = (Inr (ds, cs), Suc k)"
  using assms by (simp add: greedy_loop.simps [of U A enc end_idx t ds cs k])

lemma greedy_loop_exit_token:
  assumes "t < max_khm_len A + 10"
      and "pad_sequences U [ds] (max_khm_len A + 1) Post = Inr dec"
      and "model_predict A enc dec = Inr preds"
      and "int (length ds) - 1 < int (dim1 preds)"
      and "preds_row preds 0 (int (length ds) - 1) = Inr probs"
      and "argmax probs = Inr tok"
      and "int tok = end_idx \<or> t = max_khm_len A + 9"
  shows "greedy_loop U A enc end_idx t ds cs k
           = (Inr (ds @ [int tok], cs @ [probs ! tok]), Suc k)"
  using assms by (auto simp add: greedy_loop.simps [of U A enc end_idx t ds cs k])

text \<open>
  Claim C3. The greedy loop, started by the engine with the decoder sequence holding the
  start token, always returns, after at most \<open>max_khm_len + 10\<close> forward passes. It exits
  with the two lists when the chosen token is the end token, when the step counter is
  \<open>max_khm_len + 9\<close>, or when the time index is not below the second dimension of the
  model output, the last without an error and without changing the lists; a normal exit
  has one of these three causes. The decoder sequence at a normal exit has at most
  \<open>max_khm_len + 11\<close> elements, one more than there are confidences.
\<close>

theorem greedy_loop_bounded:
  "(\<exists>r n'. greedy_loop U A enc end_idx 0 [start_idx] [] n = (r, n')) \<and>
   (\<forall>r n'. greedy_loop U A enc end_idx 0 [start_idx] [] n = (r, n') \<longrightarrow>
      n \<le> n' \<and> n' - n \<le> max_khm_len A + 10 \<and>
      (\<forall>ds cs. r = Inr (ds, cs) \<longrightarrow>
         length ds \<le> max_khm_len A + 11 \<and> length ds = length cs + 1 \<and>
         ((1 < length ds \<and> last ds = end_idx) \<or>
          n' = n + (max_khm_len A + 10) \<or>
          (\<exists>dec preds. pad_sequences U [ds] (max_khm_len A + 1) Post = Inr dec \<and>
             model_predict A enc dec = Inr preds \<and>
             int (dim1 preds) \<le> int (length ds) - 1)))) \<and>
   (\<forall>t ds cs k dec preds.
      t < max_khm_len A + 10 \<longrightarrow>
      pad_sequences U [ds] (max_khm_len A + 1) Post = Inr dec \<longrightarrow>
      model_predict A enc dec = Inr preds \<longrightarrow>
        (int (dim1 preds) \<le> int (length ds) - 1 \<longrightarrow>
           greedy_loop U A enc end_idx t ds cs k = (Inr (ds, cs), Suc k)) \<and>
        (\<forall>probs tok.
           int (length ds) - 1 < int (dim1 preds) \<longrightarrow>
           preds_row preds 0 (int (length ds) - 1) = Inr probs \<longrightarrow>
           argmax probs = Inr tok \<longrightarrow>
           (int tok = end_idx \<or> t = max_khm_len A + 9) \<longrightarrow>
           greedy_loop U A enc end_idx t ds cs k
             = (Inr (ds @ [int tok], cs @ [probs ! tok]), Suc k)))"
proof (intro conjI allI impI)
  show "\<exists>r n'. greedy_loop U A enc end_idx 0 [start_idx] [] n = (r, n')"
    by (metis prod.exhaust)
next
  fix r n' assume run: "greedy_loop U A enc end_idx 0 [start_idx] [] n = (r, n')"
  from greedy_loop_passes [OF run] show "n \<le> n'" by simp
  from greedy_loop_passes [OF run] show "n' - n \<le> max_khm_len A + 10" by arith
  fix ds cs assume "r = Inr (ds, cs)"
  with run have run': "greedy_loop U A enc end_idx 0 [start_idx] [] n = (Inr (ds, cs), n')"
    by simp
  from greedy_loop_lengths [OF run'] show "length ds \<le> max_khm_len A + 11" by simp
  from greedy_loop_lengths [OF run'] show "length ds = length cs + 1" by simp
  from greedy_loop_normal_exit [OF run']
  show "(1 < length ds \<and> last ds = end_idx) \<or>
        n' = n + (max_khm_len A + 10) \<or>
        (\<exists>dec preds. pad_sequences U [ds] (max_khm_len A + 1) Post = Inr dec \<and>
           model_predict A enc dec = Inr preds \<and>
           int (dim1 preds) \<le> int (length ds) - 1)"
    by simp
next
  fix t ds cs k dec preds
  assume "t < max_khm_len A + 10"
    "pad_sequences U [ds] (max_khm_len A + 1) Post = Inr dec"
    "model_predict A enc dec = Inr preds"
    "int (dim1 preds) \<le> int (length ds) - 1"
  then show "greedy_loop U A enc end_idx t ds cs k = (Inr (ds, cs), Suc k)"
    by (rule greedy_loop_exit_out_of_bounds)
next
  fix t ds cs k dec preds probs tok
  assume "t < max_khm_len A + 10"
    "pad_sequences U [ds] (max_khm_len A + 1) Post = Inr dec"
    "model_predict A enc dec = Inr preds"
    "int (length ds) - 1 < int (dim1 preds)"
    "preds_row preds 0 (int (length ds) - 1) = Inr probs"
    "argmax probs = Inr tok"
    "int tok = end_idx \<or> t = max_khm_len A + 9"
  then show "greedy_loop U A enc end_idx t ds cs k
             = (Inr (ds @ [int tok], cs @ [probs ! tok]), Suc k)"
    by (rule greedy_loop_exit_token)
qed

theorem greedy_loop_bounded_witness:
  "greedy_loop ascii_env demo_assets [[2, 0, 0, 0]] 2 0 [1] [] 0 = (Inr ([1, 3, 2], [9/10, 8/10]), 2) \<and>
   (2::nat) - 0 \<le> max_khm_len demo_assets + 10 \<and>
   length [1, 3, 2 :: int] \<le> max_khm_len demo_assets + 11 \<and>
   greedy_loop ascii_env demo_assets [[2, 0, 0, 0]] 2 0 [1, 3, 3, 3] [] 5 = (Inr ([1, 3, 3, 3], []), 6) \<and>
   greedy_loop ascii_env demo_assets [[2, 0, 0, 0]] 2 1 [1, 3] [9/10] 1
     = (Inr ([1, 3, 2], [9/10, 8/10]), 2)"
proof -
  let ?enc = "[[2, 0, 0, 0]] :: int list list"
  let ?preds = "\<lparr>dim0 = 1, dim1 = 3, dim2 = 4,
                  cell = (\<lambda>b t v. if t = 0 then (if v = 3 then 9/10 else 1/30)
                                   else (if v = 2 then 8/10 else 1/15 :: real))\<rparr>"
  note inst = greedy_loop_bounded [of ascii_env demo_assets ?enc 2 1 0]
  note bound = inst [THEN conjunct2, THEN conjunct1, rule_format]
  note exits = inst [THEN conjunct2, THEN conjunct2, rule_format]
  have run: "greedy_loop ascii_env demo_assets ?enc 2 0 [1] [] 0 = (Inr ([1, 3, 2], [9/10, 8/10]), 2)"
    by code_simp
  have m: "max_khm_len demo_assets = 2" by (simp add: demo_assets_def)
  from bound [OF run] have a: "(2::nat) - 0 \<le> max_khm_len demo_assets + 10" by simp
  from bound [OF run] have b: "length [1, 3, 2 :: int] \<le> max_khm_len demo_assets + 11" by simp
  have t0: "(0::nat) < max_khm_len demo_assets + 10" by (simp add: m)
  have t1: "(1::nat) < max_khm_len demo_assets + 10" by (simp add: m)
  have p4: "pad_sequences ascii_env [[1, 3, 3, 3]] (max_khm_len demo_assets + 1) Post = Inr [[1, 3, 3]]"
    by code_simp
  have p2: "pad_sequences ascii_env [[1, 3]] (max_khm_len demo_assets + 1) Post = Inr [[1, 3, 0]]"
    by code_simp
  have mp4: "model_predict demo_assets ?enc [[1, 3, 3]] = Inr ?preds"
    by (simp add: demo_assets_def demo_model_def)
  have mp2: "model_predict demo_assets ?enc [[1, 3, 0]] = Inr ?preds"
    by (simp add: demo_assets_def demo_model_def)
  have oob: "int (dim1 ?preds) \<le> int (length [1, 3, 3, 3 :: int]) - 1" by simp
  have inb: "int (length [1, 3 :: int]) - 1 < int (dim1 ?preds)" by simp
  have row: "preds_row ?preds 0 (int (length [1, 3 :: int]) - 1) = Inr [1/15, 1/15, 8/10, 1/15]"
    by (simp add: preds_row_def np_index_def upt_rec numeral_eq_Suc)
  have am: "argmax [1/15, 1/15, 8/10, 1/15 :: real] = Inr 2" by (simp add: argmax_def)
  have e: "int 2 = 2 \<or> (1::nat) = max_khm_len demo_assets + 9" by simp
  from exits [OF t0 p4 mp4, THEN conjunct1, rule_format, OF oob, of "[]" 5]
  have c: "greedy_loop ascii_env demo_assets ?enc 2 0 [1, 3, 3, 3] [] 5 = (Inr ([1, 3, 3, 3], []), 6)"
    by simp
  from exits [OF t1 p2 mp2, THEN conjunct2, rule_format, OF inb row am e, of "[9/10]" 1]
  have d: "greedy_loop ascii_env demo_assets ?enc 2 1 [1, 3] [9/10] 1
     = (Inr ([1, 3, 2], [9/10, 8/10]), 2)"
    by simp
  from run a b c d show ?thesis by simp
qed

section \<open>The orchestrator joins and averages\<close>

lemma greedy_loop_counter_free:
  "fst (greedy_loop U A enc end_idx t ds cs n) = fst (greedy_loop U A enc end_idx t ds cs m)"
proof (induction "max_khm_len A + 10 - t" arbitrary: t ds cs n m)
  case 0
  then show ?case
    by (simp add: greedy_loop.simps [of U A enc end_idx t ds cs n]
                  greedy_loop.simps [of U A enc end_idx t ds cs m])
next
  case (Suc k)
  have rec: "fst (greedy_loop U A enc end_idx (Suc t) ds' cs' (Suc n))
           = fst (greedy_loop U A enc end_idx (Suc t) ds' cs' (Suc m))" for ds' cs'
    using Suc.hyps(2) by (intro Suc.hyps(1)) simp
  show ?case
    by (simp add: greedy_loop.simps [of U A enc end_idx t ds cs n]
                  greedy_loop.simps [of U A enc end_idx t ds cs m]
                  Let_def rec split: sum.splits)
qed

lemma fst_case_loop_result:
  "fst (case p of (Inl e, n') \<Rightarrow> (Inl e, n')
               | (Inr (d, c), n') \<Rightarrow> (Inr (F d c), n'))
     = (case fst p of Inl e \<Rightarrow> Inl e | Inr (d, c) \<Rightarrow> Inr (F d c))"
  by (auto split: prod.splits sum.splits)

lemma predict_body_counter_free:
  "fst (predict_body U A w cl n) = fst (predict_body U A w cl m)"
  unfolding predict_body_def Let_def
  by (simp add: fst_case_loop_result greedy_loop_counter_free [of U A _ _ 0 _ "[]" n m]
           split: sum.splits option.splits)

lemma initialize_engine_assets:
  "initialize disk L = (case engine_assets disk L of Inl e \<Rightarrow> Inl e
                        | Inr A \<Rightarrow> Inr (L\<lparr>loaded := Some A\<rparr>, A))"
  by (cases L) (auto simp add: initialize_def engine_assets_def split: option.splits sum.splits)

lemma translate_single_word_assets:
  assumes "engine_assets disk L' = engine_assets disk L"
  shows "fst (translate_single_word U disk L' w) = fst (translate_single_word U disk L w)"
proof (cases "engine_assets disk L")
  case (Inl e)
  with assms show ?thesis
    by (simp add: translate_single_word_def predict_khmer_with_confidence_def
          initialize_engine_assets)
next
  case (Inr A)
  have "fst (predict_body U A w (clean_text U w) (forward_passes L'))
      = fst (predict_body U A w (clean_text U w) (forward_passes L))"
    by (rule predict_body_counter_free)
  with Inr assms show ?thesis
    by (cases "predict_body U A w (clean_text U w) (forward_passes L')";
        cases "predict_body U A w (clean_text U w) (forward_passes L)")
       (auto simp add: translate_single_word_def predict_khmer_with_confidence_def
          initialize_engine_assets Let_def split: sum.splits)
qed

lemma translate_single_word_keeps_assets:
  "engine_assets disk (snd (translate_single_word U disk L w)) = engine_assets disk L"
proof (cases "engine_assets disk L")
  case (Inl e)
  then show ?thesis
    by (simp add: translate_single_word_def predict_khmer_with_confidence_def
          initialize_engine_assets)
next
  case (Inr A)
  then show ?thesis
    by (cases "predict_body U A w (clean_text U w) (forward_passes L)")
       (auto simp add: translate_single_word_def predict_khmer_with_confidence_def
          initialize_engine_assets Let_def engine_assets_def split: sum.splits)
qed

lemma translate_loop_spec:
  "translate_loop U disk ws res tot L = (res', tot', L') \<Longrightarrow>
     res' = res @ map (word_entry U disk L) ws \<and>
     tot' = tot + sum_list (map (\<lambda>w. snd (fst (translate_single_word U disk L w))) ws) \<and>
     engine_assets disk L' = engine_assets disk L"
proof (induction ws arbitrary: res tot L)
  case Nil
  then show ?case by simp
next
  case (Cons w ws)
  obtain tr c L1 where step: "translate_single_word U disk L w = ((tr, c), L1)"
    by (metis prod.exhaust)
  from translate_single_word_keeps_assets [of disk U L w] step
  have keep: "engine_assets disk L1 = engine_assets disk L" by simp
  have same: "fst (translate_single_word U disk L1 v) = fst (translate_single_word U disk L v)"
    for v using keep by (rule translate_single_word_assets)
  from Cons.prems step
  have "translate_loop U disk ws
          (res @ [\<lparr>wt_input = w, wt_translation = tr, wt_confidence = c\<rparr>]) (tot + c) L1
        = (res', tot', L')" by simp
  from Cons.IH [OF this] step keep show ?case
    by (simp add: word_entry_def same add.assoc)
qed


text \<open>
  Claim C7. For a text with at least one word, the translation is the concatenation of
  the single-word outputs in input order, nothing inserted between them; the average
  confidence is the arithmetic mean of the single-word confidences rounded to two
  decimals; there is one per-word entry for every word and the word count is their
  number. The single-word results are those of \<open>translate_single_word\<close> in the state
  in which \<open>translate_text\<close> was called: a word's result does not depend on the words
  translated before it.
\<close>

theorem translate_text_concat_and_mean:
  assumes "str_split U s \<noteq> []"
  shows "translation (fst (translate_text U disk L s))
           = concat (map (\<lambda>w. fst (fst (translate_single_word U disk L w))) (str_split U s)) \<and>
         average_confidence (fst (translate_text U disk L s))
           = round2 (mean (map (\<lambda>w. snd (fst (translate_single_word U disk L w)))
                               (str_split U s))) \<and>
         word_translations (fst (translate_text U disk L s))
           = map (word_entry U disk L) (str_split U s) \<and>
         word_count (fst (translate_text U disk L s)) = length (str_split U s)"
proof -
  obtain res tot L' where
    run: "translate_loop U disk (str_split U s) [] 0 L = (res, tot, L')"
    by (metis prod.exhaust)
  from translate_loop_spec [OF run]
  have res: "res = map (word_entry U disk L) (str_split U s)"
    and tot: "tot = sum_list (map (\<lambda>w. snd (fst (translate_single_word U disk L w)))
                                  (str_split U s))"
    by simp_all
  have tr: "map wt_translation res
              = map (\<lambda>w. fst (fst (translate_single_word U disk L w))) (str_split U s)"
    by (simp add: res word_entry_def comp_def)
  from assms run show ?thesis
    by (simp add: translate_text_def Let_def tr mean_def) (simp add: res tot)
qed

theorem translate_text_concat_and_mean_witness:
  "str_split ascii_env [65, 32, 66] = [[65], [66]] \<and>
   fst (translate_single_word ascii_env no_files demo_loader [65]) = ([6016], 85) \<and>
   fst (translate_single_word ascii_env no_files demo_loader [66]) = ([6016], 85) \<and>
   translation (fst (translate_text ascii_env no_files demo_loader [65, 32, 66]))
     = [6016, 6016] \<and>
   average_confidence (fst (translate_text ascii_env no_files demo_loader [65, 32, 66])) = 85"
proof -
  have sp: "str_split ascii_env [65, 32, 66] = [[65], [66]]" by code_simp
  then have ne: "str_split ascii_env [65, 32, 66] \<noteq> []" by simp
  have a: "fst (translate_single_word ascii_env no_files demo_loader [65]) = ([6016], 85)"
    by code_simp
  have b: "fst (translate_single_word ascii_env no_files demo_loader [66]) = ([6016], 85)"
    by code_simp
  have r: "round2 (mean [85, 85]) = 85" by (simp add: round2_def mean_def rint_def)
  from translate_text_concat_and_mean [OF ne, of no_files demo_loader] sp a b r
  show ?thesis by simp
qed

section \<open>Confidence\<close>























end
